theory Spec2Isabelle
  imports Complex_Main "HOL-Library.AList"
begin

section \<open>Python values handled by the resolver\<close>

text \<open>
  \<^verbatim>\<open>cirq/study/resolver.py\<close> inspects its arguments with three \<^verbatim>\<open>isinstance\<close> tests:
  \<^verbatim>\<open>numbers.Number\<close>, \<^verbatim>\<open>str\<close> and \<^verbatim>\<open>sympy.Basic\<close> (with \<^verbatim>\<open>sympy.Symbol\<close> as the one
  subclass it singles out). The value type has one constructor for Python numbers, one for
  strings and one for sympy expressions. Python numbers keep their run-time type
  (\<^verbatim>\<open>int\<close>, \<^verbatim>\<open>float\<close>, \<^verbatim>\<open>complex\<close>); a float is idealised as a real number, since nothing
  below depends on rounding. The test for \<^verbatim>\<open>numbers.Number\<close> is not the test for the first
  constructor alone: sympy registers its numeric atoms with the abstract number classes,
  so \<^verbatim>\<open>sympy.Integer\<close> and \<^verbatim>\<open>sympy.Float\<close> pass it too (\<open>is_number\<close> below).
\<close>

datatype number = PyInt int | PyFloat real | PyComplex complex

text \<open>
  A fragment of sympy's expression trees: symbols, numeric atoms, the imaginary unit,
  sums and products. Equality of expressions (\<^verbatim>\<open>v != value\<close> in the source) is structural.
\<close>

datatype expr =
    Symbol string
  | Integer int
  | Float real
  | ImaginaryUnit
  | Add expr expr
  | Mul expr expr

datatype pyval = Number number | Str string | Basic expr

text \<open>
  A key of \<^verbatim>\<open>param_dict\<close> is a name (\<^verbatim>\<open>str\<close>) or a \<^verbatim>\<open>sympy.Symbol\<close>. The two never compare
  equal as dictionary keys, also when the symbol carries that name.
\<close>

datatype key = KStr string | KSym string

text \<open>
  A Python dict keeps insertion order and has unique keys: an association list, with
  \<open>distinct (map fst d)\<close> stated where a property needs it.
\<close>

type_synonym table = "(key \<times> pyval) list"

definition contains :: "table \<Rightarrow> key \<Rightarrow> bool" where
  "contains d k = (map_of d k \<noteq> None)"

section \<open>The algebra engine\<close>

text \<open>
  The resolver calls sympy in five places: \<^verbatim>\<open>value.subs(self.param_dict)\<close>,
  \<^verbatim>\<open>v.free_symbols\<close>, \<^verbatim>\<open>sympy.im(v)\<close>, \<^verbatim>\<open>complex(v)\<close> and \<^verbatim>\<open>float(v)\<close>. sympy is not part
  of the repository, so the five operations are a parameter of the model.
\<close>

record engine =
  subs :: "expr \<Rightarrow> table \<Rightarrow> expr"
  free_symbols :: "expr \<Rightarrow> string set"
  im :: "expr \<Rightarrow> real"
  to_complex :: "expr \<Rightarrow> complex"
  to_float :: "expr \<Rightarrow> real"

subsection \<open>A concrete engine\<close>

text \<open>
  Modelled from the spec: the external algebra engine (sympy), which the spec describes as
  \<^verbatim>\<open>substitute(expr, bindings) -> expr'\<close>, returning the expression with the known bindings
  applied, together with the queries for remaining free variables, for the imaginary part
  and the conversions to a real or complex number. Keys given as names stand for the symbol
  of that name, bound values are turned into expressions (a name string into the symbol of
  that name), and the bindings are applied one after the other in table order.
\<close>

fun key_name :: "key \<Rightarrow> string" where
  "key_name (KStr s) = s"
| "key_name (KSym s) = s"

fun sympify :: "pyval \<Rightarrow> expr" where
  "sympify (Number (PyInt i)) = Integer i"
| "sympify (Number (PyFloat r)) = Float r"
| "sympify (Number (PyComplex c)) = Add (Float (Re c)) (Mul (Float (Im c)) ImaginaryUnit)"
| "sympify (Str s) = Symbol s"
| "sympify (Basic e) = e"

fun replace :: "string \<Rightarrow> expr \<Rightarrow> expr \<Rightarrow> expr" where
  "replace n new (Symbol m) = (if m = n then new else Symbol m)"
| "replace n new (Integer i) = Integer i"
| "replace n new (Float r) = Float r"
| "replace n new ImaginaryUnit = ImaginaryUnit"
| "replace n new (Add a b) = Add (replace n new a) (replace n new b)"
| "replace n new (Mul a b) = Mul (replace n new a) (replace n new b)"

fun sym_subs :: "expr \<Rightarrow> table \<Rightarrow> expr" where
  "sym_subs e [] = e"
| "sym_subs e ((k, v) # d) = sym_subs (replace (key_name k) (sympify v) e) d"

fun sym_free_symbols :: "expr \<Rightarrow> string set" where
  "sym_free_symbols (Symbol m) = {m}"
| "sym_free_symbols (Integer i) = {}"
| "sym_free_symbols (Float r) = {}"
| "sym_free_symbols ImaginaryUnit = {}"
| "sym_free_symbols (Add a b) = sym_free_symbols a \<union> sym_free_symbols b"
| "sym_free_symbols (Mul a b) = sym_free_symbols a \<union> sym_free_symbols b"

text \<open>The numeric value of an expression; only read on expressions without symbols.\<close>

fun evalc :: "expr \<Rightarrow> complex" where
  "evalc (Symbol m) = 0"
| "evalc (Integer i) = of_int i"
| "evalc (Float r) = of_real r"
| "evalc ImaginaryUnit = \<i>"
| "evalc (Add a b) = evalc a + evalc b"
| "evalc (Mul a b) = evalc a * evalc b"

definition sympy_engine :: engine where
  "sympy_engine =
     \<lparr> subs = sym_subs,
       free_symbols = sym_free_symbols,
       im = (\<lambda>e. Im (evalc e)),
       to_complex = evalc,
       to_float = (\<lambda>e. Re (evalc e)) \<rparr>"

text \<open>
  An engine that ignores the table and rewrites every expression to the integer 7. It
  serves to run results that must not depend on what substitution does.
\<close>

definition const_engine :: engine where
  "const_engine =
     \<lparr> subs = (\<lambda>e d. Integer 7),
       free_symbols = (\<lambda>e. {}),
       im = (\<lambda>e. 0),
       to_complex = (\<lambda>e. 7),
       to_float = (\<lambda>e. 7) \<rparr>"

section \<open>ParamResolver.value_of\<close>

text \<open>
  Lines 115 to 125, the \<^verbatim>\<open>while isinstance(value, sympy.Basic)\<close> loop. Every path through
  the body either returns or continues with another expression, so the loop is a
  recursion on the expression. It has no bound: \<open>None\<close> is the run that never returns.
\<close>

partial_function (option) subs_loop :: "engine \<Rightarrow> table \<Rightarrow> expr \<Rightarrow> pyval option" where
  "subs_loop E d value =
     (let v = subs E value d in
      if free_symbols E v \<noteq> {} then
        (if v \<noteq> value then subs_loop E d v
         else Some (Basic v))
      else if im E v \<noteq> 0 then Some (Number (PyComplex (to_complex E v)))
      else Some (Number (PyFloat (to_float E v))))"

declare subs_loop.simps [code]

text \<open>Lines 96 and 97: a string is shorthand for the symbol of that name.\<close>

fun as_symbol :: "pyval \<Rightarrow> pyval" where
  "as_symbol (Str s) = Basic (Symbol s)"
| "as_symbol v = v"

text \<open>
  Lines 100 to 105. The two membership tests are separate \<^verbatim>\<open>if\<close> statements, not an
  \<^verbatim>\<open>if\<close>/\<^verbatim>\<open>elif\<close> pair: the second assignment to \<^verbatim>\<open>key\<close> overwrites the first.
\<close>

definition find_key :: "table \<Rightarrow> pyval \<Rightarrow> key option" where
  "find_key d value =
     (case value of
        Basic (Symbol n) \<Rightarrow>
          (let key = None;
               key = (if contains d (KSym n) then Some (KSym n) else key);
               key = (if contains d (KStr n) then Some (KStr n) else key)
           in key)
      | _ \<Rightarrow> None)"

text \<open>
  Lines 106 to 109: the value returned by the exact-match shortcut, if it returns.
  \<^verbatim>\<open>self.param_dict[key]\<close> cannot raise, since \<^verbatim>\<open>key\<close> was found in the dict.
\<close>

definition exact_match :: "table \<Rightarrow> pyval \<Rightarrow> pyval option" where
  "exact_match d value =
     (case find_key d value of
        None \<Rightarrow> None
      | Some key \<Rightarrow>
          (case map_of d key of
             Some (Number r) \<Rightarrow> Some (Number r)
           | _ \<Rightarrow> None))"

text \<open>
  Line 92, \<^verbatim>\<open>isinstance(value, numbers.Number)\<close>: true of every Python number and of the
  numeric atoms of sympy, \<^verbatim>\<open>sympy.Integer\<close> and \<^verbatim>\<open>sympy.Float\<close>, which are instances of
  \<^verbatim>\<open>numbers.Number\<close> as well as of \<^verbatim>\<open>sympy.Basic\<close>. The imaginary unit, symbols and
  compound expressions are not.
\<close>

fun is_number :: "pyval \<Rightarrow> bool" where
  "is_number (Number n) = True"
| "is_number (Basic (Integer i)) = True"
| "is_number (Basic (Float r)) = True"
| "is_number _ = False"

text \<open>
  \<^verbatim>\<open>value_of\<close>, lines 91 to 128. A value that passes the test of line 92 is returned as
  it is, a sympy numeric atom included: it reaches neither the shortcut nor the loop.
\<close>

definition value_of :: "engine \<Rightarrow> table \<Rightarrow> pyval \<Rightarrow> pyval option" where
  "value_of E d value =
     (if is_number value then Some value
      else
        (let value = as_symbol value in
         case exact_match d value of
           Some resolved \<Rightarrow> Some resolved
         | None \<Rightarrow>
             (case value of
                Basic e \<Rightarrow> subs_loop E d e
              | _ \<Rightarrow> Some value)))"

section \<open>The ParamResolver object\<close>

text \<open>
  The two attributes set by \<^verbatim>\<open>__init__\<close>: \<^verbatim>\<open>param_dict\<close> and the memoised \<^verbatim>\<open>_param_hash\<close>.
\<close>

record ParamResolver =
  param_dict :: table
  param_hash :: "int option"

text \<open>Lines 62 to 64, for an argument that is \<^verbatim>\<open>None\<close> or a dict.\<close>

definition ParamResolver_of :: "table option \<Rightarrow> ParamResolver" where
  "ParamResolver_of arg =
     \<lparr> param_dict = (case arg of None \<Rightarrow> [] | Some d \<Rightarrow> d),
       param_hash = None \<rparr>"

subsection \<open>Construction and object identity\<close>

text \<open>
  Identity needs a store. An address is an index into the heap and allocation appends a
  cell. \<open>Blank\<close> is the object \<^verbatim>\<open>super().__new__(cls)\<close> returns, with no attribute yet;
  \<open>Inst\<close> is an initialised resolver. \<open>Wraps p\<close> is an object whose \<^verbatim>\<open>param_dict\<close>
  attribute holds the resolver at \<open>p\<close> instead of a dict: the \<^verbatim>\<open>cast\<close> of line 63 would
  store it if \<^verbatim>\<open>__init__\<close> were run on a blank object with a resolver as argument, which
  the constructor call never does.
\<close>

datatype cell = Blank | Inst ParamResolver | Wraps nat

type_synonym heap = "cell list"

text \<open>\<^verbatim>\<open>ParamResolverOrSimilarType\<close>: a resolver (by reference), a dict, or \<^verbatim>\<open>None\<close>.\<close>

datatype param_arg = ArgNone | ArgDict table | ArgResolver nat

definition ParamResolver_new :: "heap \<Rightarrow> param_arg \<Rightarrow> nat \<times> heap" where
  "ParamResolver_new h arg =
     (case arg of
        ArgResolver p \<Rightarrow> (p, h)
      | _ \<Rightarrow> (length h, h @ [Blank]))"

definition hasattr_param_dict :: "heap \<Rightarrow> nat \<Rightarrow> bool" where
  "hasattr_param_dict h self = (self < length h \<and> h ! self \<noteq> Blank)"

definition ParamResolver_init :: "heap \<Rightarrow> nat \<Rightarrow> param_arg \<Rightarrow> heap" where
  "ParamResolver_init h self arg =
     (if hasattr_param_dict h self then h
      else (case arg of
              ArgNone \<Rightarrow> h[self := Inst (ParamResolver_of None)]
            | ArgDict d \<Rightarrow> h[self := Inst (ParamResolver_of (Some d))]
            | ArgResolver p \<Rightarrow> h[self := Wraps p]))"

text \<open>
  The expression \<^verbatim>\<open>ParamResolver(param_dict)\<close>: Python calls \<^verbatim>\<open>__new__\<close> and then, the
  result being an instance of the class, \<^verbatim>\<open>__init__\<close> on it with the same argument.
\<close>

definition ParamResolver_call :: "heap \<Rightarrow> param_arg \<Rightarrow> nat \<times> heap" where
  "ParamResolver_call h arg =
     (let (self, h') = ParamResolver_new h arg
      in (self, ParamResolver_init h' self arg))"

subsection \<open>Iteration, truth value, indexing\<close>




subsection \<open>Equality and hash\<close>

text \<open>
  Python's \<^verbatim>\<open>==\<close> on the values of a table: numbers compare by numeric value across
  \<^verbatim>\<open>int\<close>, \<^verbatim>\<open>float\<close> and \<^verbatim>\<open>complex\<close> (\<^verbatim>\<open>3 == 3.0\<close>). The numeric atoms of sympy take part in
  this comparison: \<^verbatim>\<open>2 == sympy.Integer(2)\<close> and \<^verbatim>\<open>2.5 == sympy.Float(2.5)\<close> hold, and the
  atoms compare with each other by value as well. Strings compare by their characters;
  symbols, the imaginary unit and compound expressions compare by structure, and are equal
  to no number and to no string.
\<close>

fun num_val :: "number \<Rightarrow> complex" where
  "num_val (PyInt i) = of_int i"
| "num_val (PyFloat r) = of_real r"
| "num_val (PyComplex c) = c"

fun numeric_value :: "pyval \<Rightarrow> complex option" where
  "numeric_value (Number a) = Some (num_val a)"
| "numeric_value (Basic (Integer i)) = Some (of_int i)"
| "numeric_value (Basic (Float r)) = Some (of_real r)"
| "numeric_value _ = None"

definition py_eq :: "pyval \<Rightarrow> pyval \<Rightarrow> bool" where
  "py_eq v w =
     (case numeric_value v of
        Some a \<Rightarrow> numeric_value w = Some a
      | None \<Rightarrow> numeric_value w = None \<and> v = w)"

text \<open>
  Equality of two dicts: the same number of entries, and every key of the first is a key
  of the second with an equal value. Insertion order plays no part.
\<close>

definition dict_eq :: "table \<Rightarrow> table \<Rightarrow> bool" where
  "dict_eq a b =
     (length a = length b \<and>
      list_all (\<lambda>(k, v). case map_of b k of None \<Rightarrow> False | Some w \<Rightarrow> py_eq v w) a)"

datatype eq_result = NotImplemented | Bool bool

datatype pyobj = Resolver ParamResolver | Other pyval

definition ParamResolver_eq :: "ParamResolver \<Rightarrow> pyobj \<Rightarrow> eq_result" where
  "ParamResolver_eq self other =
     (case other of
        Resolver r \<Rightarrow> Bool (dict_eq (param_dict self) (param_dict r))
      | Other _ \<Rightarrow> NotImplemented)"


text \<open>
  \<^verbatim>\<open>frozenset(self.param_dict.items())\<close>. A frozenset holds its entries up to Python
  equality, and equal entries hash alike, so each value is replaced by one representative
  of its equality class: a Python number and a sympy numeric atom of the same value have
  the same representative. The built-in \<^verbatim>\<open>hash\<close> of a frozenset is the parameter \<open>H\<close>.
\<close>

definition canon :: "pyval \<Rightarrow> pyval" where
  "canon v =
     (case numeric_value v of
        Some a \<Rightarrow> Number (PyComplex a)
      | None \<Rightarrow> v)"

definition frozenset_items :: "table \<Rightarrow> (key \<times> pyval) set" where
  "frozenset_items d = (\<lambda>(k, v). (k, canon v)) ` set d"

text \<open>Lines 140 to 143: the value returned and the object, whose cache may have been filled.\<close>

definition ParamResolver_hash ::
  "((key \<times> pyval) set \<Rightarrow> int) \<Rightarrow> ParamResolver \<Rightarrow> int \<times> ParamResolver" where
  "ParamResolver_hash H self =
     (case param_hash self of
        None \<Rightarrow> (let h = H (frozenset_items (param_dict self))
                 in (h, self\<lparr>param_hash := Some h\<rparr>))
      | Some h \<Rightarrow> (h, self))"

text \<open>
  The cache is either empty or holds the hash of the current entries. \<^verbatim>\<open>__init__\<close> leaves
  it empty and \<^verbatim>\<open>__hash__\<close> fills it with that hash; nothing in the class writes it again.
\<close>

definition hash_cache_valid :: "((key \<times> pyval) set \<Rightarrow> int) \<Rightarrow> ParamResolver \<Rightarrow> bool" where
  "hash_cache_valid H self =
     (case param_hash self of
        None \<Rightarrow> True
      | Some h \<Rightarrow> h = H (frozenset_items (param_dict self)))"

subsection \<open>Encoding and decoding\<close>

record json_dict =
  json_cirq_type :: string
  json_param_dict :: "(key \<times> pyval) list"

definition ParamResolver_json_dict :: "ParamResolver \<Rightarrow> json_dict" where
  "ParamResolver_json_dict self =
     \<lparr> json_cirq_type = ''ParamResolver'', json_param_dict = param_dict self \<rparr>"

text \<open>
  The built-in \<^verbatim>\<open>dict\<close> applied to a sequence of pairs: a pair whose key is already
  present replaces the value and keeps the key's position.
\<close>

definition dict :: "(key \<times> pyval) list \<Rightarrow> table" where
  "dict pairs = foldl (\<lambda>d (k, v). AList.update k v d) [] pairs"

text \<open>\<^verbatim>\<open>cls(dict(param_dict))\<close>, built on the heap by the constructor call.\<close>

definition ParamResolver_from_json_dict :: "heap \<Rightarrow> (key \<times> pyval) list \<Rightarrow> nat \<times> heap" where
  "ParamResolver_from_json_dict h pd = ParamResolver_call h (ArgDict (dict pd))"

section \<open>What the loop can return\<close>

text \<open>
  The two kinds of value the loop hands back: an expression that still has free symbols and
  that substitution leaves as it is, or the number computed from an expression without
  free symbols, a \<^verbatim>\<open>complex\<close> when \<^verbatim>\<open>sympy.im\<close> is non-zero and a \<^verbatim>\<open>float\<close> otherwise.
\<close>

definition loop_result_ok :: "engine \<Rightarrow> table \<Rightarrow> pyval \<Rightarrow> bool" where
  "loop_result_ok E d y =
     ((\<exists>r. y = Basic r \<and> subs E r d = r \<and> free_symbols E r \<noteq> {}) \<or>
      (\<exists>v. free_symbols E v = {} \<and>
           y = Number (if im E v \<noteq> 0 then PyComplex (to_complex E v) else PyFloat (to_float E v))))"

text \<open>
  The condition under which the loop body executes \<^verbatim>\<open>continue\<close> (lines 117 to 121), the
  expression the loop holds after \<open>k\<close> passes, and the number returned by lines 123 to 125
  for an expression \<open>v\<close> without free symbols.
\<close>

definition makes_progress :: "engine \<Rightarrow> table \<Rightarrow> expr \<Rightarrow> bool" where
  "makes_progress E d e = (free_symbols E (subs E e d) \<noteq> {} \<and> subs E e d \<noteq> e)"

definition subs_iter :: "engine \<Rightarrow> table \<Rightarrow> nat \<Rightarrow> expr \<Rightarrow> expr" where
  "subs_iter E d k e = ((\<lambda>x. subs E x d) ^^ k) e"

definition numeric_result :: "engine \<Rightarrow> expr \<Rightarrow> pyval" where
  "numeric_result E v =
     (if im E v \<noteq> 0 then Number (PyComplex (to_complex E v))
      else Number (PyFloat (to_float E v)))"

section \<open>Properties of the substitution loop\<close>

lemma subs_loop_fixed:
  "free_symbols E (subs E e d) \<noteq> {} \<Longrightarrow> subs E e d = e \<Longrightarrow> subs_loop E d e = Some (Basic e)"
  by (subst subs_loop.simps) simp

lemma subs_loop_progress:
  "free_symbols E (subs E e d) \<noteq> {} \<Longrightarrow> subs E e d \<noteq> e \<Longrightarrow>
   subs_loop E d e = subs_loop E d (subs E e d)"
  by (subst subs_loop.simps) simp

lemma subs_loop_closed:
  "free_symbols E (subs E e d) = {} \<Longrightarrow>
   subs_loop E d e =
     Some (Number (if im E (subs E e d) \<noteq> 0 then PyComplex (to_complex E (subs E e d))
                   else PyFloat (to_float E (subs E e d))))"
  by (subst subs_loop.simps) simp

lemma subs_loop_iterate:
  "(\<forall>i<k. free_symbols E (subs E (((\<lambda>x. subs E x d) ^^ i) e) d) \<noteq> {} \<and>
           subs E (((\<lambda>x. subs E x d) ^^ i) e) d \<noteq> ((\<lambda>x. subs E x d) ^^ i) e) \<Longrightarrow>
   subs_loop E d e = subs_loop E d (((\<lambda>x. subs E x d) ^^ k) e)"
proof (induction k)
  case 0
  then show ?case by simp
next
  case (Suc k)
  then have "subs_loop E d e = subs_loop E d (((\<lambda>x. subs E x d) ^^ k) e)" by simp
  also have "\<dots> = subs_loop E d (subs E (((\<lambda>x. subs E x d) ^^ k) e) d)"
    using Suc.prems by (intro subs_loop_progress) auto
  finally show ?case by simp
qed

lemma subs_loop_result:
  assumes ret: "subs_loop E d e = Some y"
  shows "loop_result_ok E d y"
proof (rule subs_loop.raw_induct [rotated 1, where P = "\<lambda>E d e y. loop_result_ok E d y"])
  show "subs_loop E d e = Some y" by (rule ret)
next
  fix loop E' d' e' y'
  assume IH: "\<And>E'' d'' e'' y''. loop E'' d'' e'' = Some y'' \<Longrightarrow> loop_result_ok E'' d'' y''"
    and body: "(let v = subs E' e' d' in
                if free_symbols E' v \<noteq> {} then if v \<noteq> e' then loop E' d' v else Some (Basic v)
                else if im E' v \<noteq> 0 then Some (Number (PyComplex (to_complex E' v)))
                else Some (Number (PyFloat (to_float E' v)))) = Some y'"
  let ?v = "subs E' e' d'"
  show "loop_result_ok E' d' y'"
  proof (cases "free_symbols E' ?v \<noteq> {}")
    case True
    show ?thesis
    proof (cases "?v \<noteq> e'")
      case True
      with \<open>free_symbols E' ?v \<noteq> {}\<close> body have "loop E' d' ?v = Some y'" by simp
      then show ?thesis by (rule IH)
    next
      case False
      with \<open>free_symbols E' ?v \<noteq> {}\<close> body have "y' = Basic e'" "subs E' e' d' = e'" "free_symbols E' e' \<noteq> {}"
        by simp_all
      then show ?thesis unfolding loop_result_ok_def by blast
    qed
  next
    case False
    with body have "y' = Number (if im E' ?v \<noteq> 0 then PyComplex (to_complex E' ?v) else PyFloat (to_float E' ?v))"
      by (auto simp: Let_def split: if_splits)
    with False show ?thesis unfolding loop_result_ok_def by blast
  qed
qed

lemma subs_loop_returns_expr:
  "subs_loop E d e = Some (Basic r) \<Longrightarrow> subs E r d = r \<and> free_symbols E r \<noteq> {}"
  by (drule subs_loop_result) (auto simp: loop_result_ok_def)

lemma subs_loop_returns_number:
  "subs_loop E d e = Some (Number x) \<Longrightarrow> (\<exists>r. x = PyFloat r) \<or> (\<exists>c. x = PyComplex c)"
  by (drule subs_loop_result) (auto simp: loop_result_ok_def split: if_splits)

lemma subs_loop_never_str: "subs_loop E d e \<noteq> Some (Str s)"
  using subs_loop_result [of E d e "Str s"] by (auto simp: loop_result_ok_def)

lemma subs_loop_diverges:
  assumes inv: "\<And>e. I e \<Longrightarrow> free_symbols E (subs E e d) \<noteq> {} \<and> subs E e d \<noteq> e \<and> I (subs E e d)"
    and start: "I e"
  shows "subs_loop E d e = None"
proof (rule ccontr)
  assume "subs_loop E d e \<noteq> None"
  then obtain y where ret: "subs_loop E d e = Some y" by auto
  have "E = E \<longrightarrow> d = d \<longrightarrow> \<not> I e"
  proof (rule subs_loop.raw_induct [rotated 1, where P = "\<lambda>E' d' e' y. E' = E \<longrightarrow> d' = d \<longrightarrow> \<not> I e'"])
    show "subs_loop E d e = Some y" by (rule ret)
  next
    fix loop E' d' e' y'
    assume IH: "\<And>E'' d'' e'' y''. loop E'' d'' e'' = Some y'' \<Longrightarrow> E'' = E \<longrightarrow> d'' = d \<longrightarrow> \<not> I e''"
      and body: "(let v = subs E' e' d' in
                  if free_symbols E' v \<noteq> {} then if v \<noteq> e' then loop E' d' v else Some (Basic v)
                  else if im E' v \<noteq> 0 then Some (Number (PyComplex (to_complex E' v)))
                  else Some (Number (PyFloat (to_float E' v)))) = Some y'"
    show "E' = E \<longrightarrow> d' = d \<longrightarrow> \<not> I e'"
    proof (intro impI notI)
      assume eq: "E' = E" "d' = d" and "I e'"
      from inv [OF \<open>I e'\<close>] have step: "free_symbols E (subs E e' d) \<noteq> {}" "subs E e' d \<noteq> e'" "I (subs E e' d)"
        by simp_all
      from body step have "loop E d (subs E e' d) = Some y'" by (simp add: eq)
      from IH [OF this] step(3) show False by simp
    qed
  qed
  with start show False by simp
qed

lemma replace_keeps_symbol:
  "n \<in> sym_free_symbols e \<Longrightarrow> n \<in> sym_free_symbols new \<Longrightarrow> n \<in> sym_free_symbols (replace n new e)"
  by (induction e) auto

lemma replace_size:
  "n \<in> sym_free_symbols e \<Longrightarrow> size e < size (replace n (Add (Symbol n) (Integer 1)) e)"
  "size e \<le> size (replace n (Add (Symbol n) (Integer 1)) e)"
   apply (induction e) apply auto
  done

lemma growing_binding_diverges:
  "n \<in> sym_free_symbols e \<Longrightarrow>
   subs_loop sympy_engine [(KStr n, Basic (Add (Symbol n) (Integer 1)))] e = None"
proof (rule subs_loop_diverges [where I = "\<lambda>e. n \<in> sym_free_symbols e"])
  fix e assume n: "n \<in> sym_free_symbols e"
  let ?e' = "replace n (Add (Symbol n) (Integer 1)) e"
  have "n \<in> sym_free_symbols ?e'" using n by (simp add: replace_keeps_symbol)
  moreover have "?e' \<noteq> e" using replace_size(1) [OF n] by auto
  ultimately show "free_symbols sympy_engine (subs sympy_engine e [(KStr n, Basic (Add (Symbol n) (Integer 1)))]) \<noteq> {} \<and>
        subs sympy_engine e [(KStr n, Basic (Add (Symbol n) (Integer 1)))] \<noteq> e \<and>
        n \<in> sym_free_symbols (subs sympy_engine e [(KStr n, Basic (Add (Symbol n) (Integer 1)))])"
    by (auto simp: sympy_engine_def)
qed

section \<open>The exact-match shortcut\<close>

lemma find_key_name:
  "contains d (KStr n) \<Longrightarrow> find_key d (Basic (Symbol n)) = Some (KStr n)"
  by (simp add: find_key_def)

lemma find_key_object:
  "\<not> contains d (KStr n) \<Longrightarrow> contains d (KSym n) \<Longrightarrow> find_key d (Basic (Symbol n)) = Some (KSym n)"
  by (simp add: find_key_def)


lemma find_key_not_symbol:
  "\<forall>n. e \<noteq> Symbol n \<Longrightarrow> find_key d (Basic e) = None"
  by (cases e) (auto simp: find_key_def)

lemma exact_match_name:
  "map_of d (KStr n) = Some (Number x) \<Longrightarrow> exact_match d (Basic (Symbol n)) = Some (Number x)"
  by (simp add: exact_match_def find_key_name contains_def)

lemma exact_match_object:
  "map_of d (KStr n) = None \<Longrightarrow> map_of d (KSym n) = Some (Number x) \<Longrightarrow>
   exact_match d (Basic (Symbol n)) = Some (Number x)"
  by (simp add: exact_match_def find_key_object contains_def)

lemma value_of_passthrough: "is_number v \<Longrightarrow> value_of E d v = Some v"
  by (simp add: value_of_def)

lemma is_number_cases:
  "is_number v \<longleftrightarrow> (\<exists>x. v = Number x) \<or> (\<exists>i. v = Basic (Integer i)) \<or> (\<exists>r. v = Basic (Float r))"
  by (cases v rule: is_number.cases) simp_all

lemma exact_match_number: "is_number v \<Longrightarrow> exact_match d (as_symbol v) = None"
  by (auto simp: is_number_cases exact_match_def find_key_def)

lemma value_of_shortcut:
  "exact_match d (as_symbol value) = Some r \<Longrightarrow> \<forall>x. value \<noteq> Number x \<Longrightarrow> value_of E d value = Some r"
  using exact_match_number [of "value" d] by (cases "is_number value") (auto simp: value_of_def)

lemma value_of_loop:
  "\<not> is_number (Basic e) \<Longrightarrow> exact_match d (Basic e) = None \<Longrightarrow>
   value_of E d (Basic e) = subs_loop E d e"
  by (simp add: value_of_def)


text \<open>
  C1, as stated, fails: a symbol object bound to a number is not resolved by the shortcut
  when the name of the symbol is bound too. With the object bound to 5 and the name bound
  to the string \<^verbatim>\<open>'y'\<close>, line 105 selects the name, whose value is a string, so the shortcut
  does not return and the loop runs. Whichever of the two replacements of \<^verbatim>\<open>x\<close> the engine
  applies first, the result is not the \<^verbatim>\<open>int\<close> 5 (it is the symbol \<^verbatim>\<open>y\<close>, or the \<^verbatim>\<open>float\<close>
  5.0), and it changes with the engine: substitution was invoked.
\<close>

theorem object_binding_shadowed_counterexample:
  "exact_match [(KSym ''x'', Number (PyInt 5)), (KStr ''x'', Str ''y'')] (Basic (Symbol ''x'')) = None \<and>
   value_of sympy_engine [(KStr ''x'', Str ''y''), (KSym ''x'', Number (PyInt 5))] (Basic (Symbol ''x''))
     = Some (Basic (Symbol ''y'')) \<and>
   value_of sympy_engine [(KSym ''x'', Number (PyInt 5)), (KStr ''x'', Str ''y'')] (Basic (Symbol ''x''))
     = Some (Number (PyFloat 5)) \<and>
   value_of const_engine [(KSym ''x'', Number (PyInt 5)), (KStr ''x'', Str ''y'')] (Basic (Symbol ''x''))
     = Some (Number (PyFloat 7))"
  by (simp add: value_of_def exact_match_def find_key_def contains_def sympy_engine_def
        const_engine_def subs_loop_closed subs_loop_progress subs_loop_fixed)

text \<open>
  C1, amended. A symbol is resolved by the exact-match shortcut when the binding that the
  lookup selects is a number: when the name of the symbol is bound to a number, or the
  name is not bound and the symbol object is bound to a number, \<^verbatim>\<open>value_of\<close> returns that
  number, for the symbol and for its name alike. The result is the same for every engine
  \<open>E\<close>: substitution has no part in it.
\<close>

theorem exact_match_shortcut:
  assumes "map_of d (KStr n) = Some (Number x) \<or>
           (map_of d (KStr n) = None \<and> map_of d (KSym n) = Some (Number x))"
  shows "value_of E d (Basic (Symbol n)) = Some (Number x) \<and>
         value_of E d (Str n) = Some (Number x)"
proof -
  from assms have "exact_match d (Basic (Symbol n)) = Some (Number x)"
    by (auto simp: exact_match_name exact_match_object)
  then show ?thesis
    by (simp add: value_of_shortcut)
qed

theorem exact_match_shortcut_witness:
  "value_of const_engine [(KStr ''x'', Number (PyInt 5))] (Basic (Symbol ''x'')) = Some (Number (PyInt 5)) \<and>
   value_of const_engine [(KStr ''x'', Number (PyInt 5))] (Str ''x'') = Some (Number (PyInt 5)) \<and>
   value_of const_engine [(KSym ''x'', Number (PyInt 5))] (Basic (Symbol ''x'')) = Some (Number (PyInt 5))"
  using exact_match_shortcut [of "[(KStr ''x'', Number (PyInt 5))]" "''x''" "PyInt 5" const_engine]
    exact_match_shortcut [of "[(KSym ''x'', Number (PyInt 5))]" "''x''" "PyInt 5" const_engine]
  by simp

text \<open>
  C2, as stated, fails: with the symbol object bound to 1 and its name bound to 2, the
  result is not the value bound to the object.
\<close>

theorem name_overrides_object_counterexample:
  "value_of sympy_engine [(KSym ''x'', Number (PyInt 1)), (KStr ''x'', Number (PyInt 2))]
     (Basic (Symbol ''x'')) \<noteq> Some (Number (PyInt 1))"
  by (simp add: value_of_def exact_match_def find_key_def contains_def)

text \<open>
  C2, amended. This is a statement about the exact-match lookup of lines 100 to 109 only.
  The symbol object is tested first and its name second, and the second test overwrites
  the result of the first: a bound name is always the key the lookup selects, and the
  symbol object is the key selected only when the name is not bound. When the table binds
  both and the name is bound to a number, \<^verbatim>\<open>value_of\<close> returns the number bound to the name,
  whatever the object is bound to; when the name is not bound and the object is bound to a
  number, \<^verbatim>\<open>value_of\<close> returns the number bound to the object. Nothing is said of a name
  bound to a string or an expression: the shortcut does not return then, and substitution
  over the whole table decides the result.
\<close>

theorem lookup_order:
  "(contains d (KStr n) \<longrightarrow> find_key d (Basic (Symbol n)) = Some (KStr n)) \<and>
   (\<not> contains d (KStr n) \<and> contains d (KSym n) \<longrightarrow> find_key d (Basic (Symbol n)) = Some (KSym n)) \<and>
   (map_of d (KSym n) = Some y \<and> map_of d (KStr n) = Some (Number x) \<longrightarrow>
      value_of E d (Basic (Symbol n)) = Some (Number x)) \<and>
   (map_of d (KSym n) = Some (Number x) \<and> map_of d (KStr n) = None \<longrightarrow>
      value_of E d (Basic (Symbol n)) = Some (Number x))"
  by (simp add: find_key_name find_key_object exact_match_name exact_match_object value_of_shortcut)

theorem lookup_order_witness:
  "value_of sympy_engine [(KSym ''x'', Number (PyInt 1)), (KStr ''x'', Number (PyInt 2))]
     (Basic (Symbol ''x'')) = Some (Number (PyInt 2)) \<and>
   value_of sympy_engine [(KSym ''x'', Number (PyInt 1))] (Basic (Symbol ''x'')) = Some (Number (PyInt 1)) \<and>
   find_key [(KSym ''x'', Number (PyInt 1)), (KStr ''x'', Number (PyInt 2))] (Basic (Symbol ''x''))
     = Some (KStr ''x'') \<and>
   find_key [(KSym ''x'', Number (PyInt 1))] (Basic (Symbol ''x'')) = Some (KSym ''x'')"
  using lookup_order [of "[(KSym ''x'', Number (PyInt 1)), (KStr ''x'', Number (PyInt 2))]" "''x''"
          "Number (PyInt 1)" "PyInt 2" sympy_engine]
        lookup_order [of "[(KSym ''x'', Number (PyInt 1))]" "''x''" "Number (PyInt 1)" "PyInt 1" sympy_engine]
  by (simp add: contains_def)

section \<open>Chained bindings\<close>

text \<open>
  C4. With the table \<^verbatim>\<open>{"x": "y", "y": 3}\<close>, in either insertion order, the symbol \<^verbatim>\<open>x\<close> and
  the string \<^verbatim>\<open>"x"\<close> resolve to 3. The value comes out of the substitution loop, hence as the
  float 3.0, which Python compares equal to the integer 3.
\<close>

theorem chained_alias:
  "value_of sympy_engine [(KStr ''x'', Str ''y''), (KStr ''y'', Number (PyInt 3))] (Basic (Symbol ''x''))
     = Some (Number (PyFloat 3)) \<and>
   value_of sympy_engine [(KStr ''x'', Str ''y''), (KStr ''y'', Number (PyInt 3))] (Str ''x'')
     = Some (Number (PyFloat 3)) \<and>
   value_of sympy_engine [(KStr ''y'', Number (PyInt 3)), (KStr ''x'', Str ''y'')] (Basic (Symbol ''x''))
     = Some (Number (PyFloat 3)) \<and>
   value_of sympy_engine [(KStr ''y'', Number (PyInt 3)), (KStr ''x'', Str ''y'')] (Str ''x'')
     = Some (Number (PyFloat 3)) \<and>
   py_eq (Number (PyFloat 3)) (Number (PyInt 3))"
  by (simp add: value_of_def exact_match_def find_key_def contains_def sympy_engine_def
        subs_loop_closed subs_loop_progress py_eq_def)

section \<open>Further properties of lookup and construction\<close>

lemma subs_loop_numeric:
  "free_symbols E (subs E e d) = {} \<Longrightarrow> subs_loop E d e = Some (numeric_result E (subs E e d))"
  by (simp add: subs_loop_closed numeric_result_def)

lemma subs_loop_steps:
  "\<forall>i<k. makes_progress E d (subs_iter E d i e) \<Longrightarrow> subs_loop E d e = subs_loop E d (subs_iter E d k e)"
  unfolding makes_progress_def subs_iter_def by (rule subs_loop_iterate)

lemma value_of_not_number:
  "\<forall>x. v \<noteq> Number x \<Longrightarrow> exact_match d (as_symbol v) = None \<Longrightarrow>
   \<exists>e. as_symbol v = Basic e \<and> (value_of E d v = subs_loop E d e \<or> value_of E d v = Some (Basic e))"
  by (cases v) (auto simp: value_of_def)





lemma call_none: "ParamResolver_call h ArgNone = (length h, h @ [Inst (ParamResolver_of None)])"
  by (simp add: ParamResolver_call_def ParamResolver_new_def ParamResolver_init_def hasattr_param_dict_def)

lemma call_dict: "ParamResolver_call h (ArgDict d) = (length h, h @ [Inst (ParamResolver_of (Some d))])"
  by (simp add: ParamResolver_call_def ParamResolver_new_def ParamResolver_init_def hasattr_param_dict_def)

lemma call_resolver_addr: "fst (ParamResolver_call h (ArgResolver p)) = p"
  by (simp add: ParamResolver_call_def ParamResolver_new_def)

lemma call_resolver_length: "length (snd (ParamResolver_call h (ArgResolver p))) = length h"
  by (simp add: ParamResolver_call_def ParamResolver_new_def ParamResolver_init_def)

lemma call_resolver_same:
  "p < length h \<Longrightarrow> h ! p = Inst r \<Longrightarrow> ParamResolver_call h (ArgResolver p) = (p, h)"
  by (simp add: ParamResolver_call_def ParamResolver_new_def ParamResolver_init_def hasattr_param_dict_def)

section \<open>The fixed point of substitution\<close>

text \<open>
  C3. When one substitution over the whole table leaves an expression that still has free
  symbols and equals the expression substituted into, the loop stops and \<^verbatim>\<open>value_of\<close>
  returns that expression unchanged. While free symbols remain this is the only exit: a
  pass that changes the expression always leads to another pass, however many passes came
  before, every expression the loop returns is such a fixed point, and a binding that
  keeps growing (\<^verbatim>\<open>x\<close> bound to \<^verbatim>\<open>x + 1\<close>) never returns. No counter bounds the loop.
\<close>

theorem fixed_point_stops_loop:
  "(free_symbols E (subs E e d) \<noteq> {} \<and> subs E e d = e \<longrightarrow> subs_loop E d e = Some (Basic e)) \<and>
   (exact_match d (Basic e) = None \<and> free_symbols E (subs E e d) \<noteq> {} \<and> subs E e d = e \<longrightarrow>
      value_of E d (Basic e) = Some (Basic e)) \<and>
   (makes_progress E d e \<longrightarrow> subs_loop E d e = subs_loop E d (subs E e d)) \<and>
   (\<forall>k. (\<forall>i<k. makes_progress E d (subs_iter E d i e)) \<longrightarrow>
      subs_loop E d e = subs_loop E d (subs_iter E d k e)) \<and>
   (\<forall>r. subs_loop E d e = Some (Basic r) \<longrightarrow> subs E r d = r \<and> free_symbols E r \<noteq> {}) \<and>
   (n \<in> sym_free_symbols e \<longrightarrow>
      subs_loop sympy_engine [(KStr n, Basic (Add (Symbol n) (Integer 1)))] e = None)"
proof -
  have stop: "free_symbols E (subs E e d) \<noteq> {} \<and> subs E e d = e \<longrightarrow> subs_loop E d e = Some (Basic e)"
    using subs_loop_fixed [of E e d] by blast
  moreover have "exact_match d (Basic e) = None \<and> free_symbols E (subs E e d) \<noteq> {} \<and> subs E e d = e \<longrightarrow>
      value_of E d (Basic e) = Some (Basic e)"
    using stop value_of_loop [of e d E] value_of_passthrough [of "Basic e" E d] by metis
  moreover have "makes_progress E d e \<longrightarrow> subs_loop E d e = subs_loop E d (subs E e d)"
    using subs_loop_progress [of E e d] by (simp add: makes_progress_def)
  moreover have "\<forall>k. (\<forall>i<k. makes_progress E d (subs_iter E d i e)) \<longrightarrow>
      subs_loop E d e = subs_loop E d (subs_iter E d k e)"
    using subs_loop_steps [of _ E d e] by blast
  moreover have "\<forall>r. subs_loop E d e = Some (Basic r) \<longrightarrow> subs E r d = r \<and> free_symbols E r \<noteq> {}"
    using subs_loop_returns_expr [of E d e] by blast
  moreover have "n \<in> sym_free_symbols e \<longrightarrow>
      subs_loop sympy_engine [(KStr n, Basic (Add (Symbol n) (Integer 1)))] e = None"
    using growing_binding_diverges [of n e] by blast
  ultimately show ?thesis by blast
qed

theorem fixed_point_stops_loop_witness:
  "value_of sympy_engine [(KStr ''x'', Basic (Symbol ''x''))] (Basic (Symbol ''x'')) = Some (Basic (Symbol ''x'')) \<and>
   subs_loop sympy_engine [(KStr ''x'', Basic (Symbol ''x''))] (Symbol ''x'') = Some (Basic (Symbol ''x'')) \<and>
   subs_loop sympy_engine [(KStr ''x'', Basic (Add (Symbol ''x'') (Integer 1)))] (Symbol ''x'') = None"
  using fixed_point_stops_loop [of sympy_engine "Symbol ''x''" "[(KStr ''x'', Basic (Symbol ''x''))]" "''x''"]
    fixed_point_stops_loop [of sympy_engine "Symbol ''x''" "[(KStr ''x'', Basic (Add (Symbol ''x'') (Integer 1)))]" "''x''"]
  by (simp add: sympy_engine_def exact_match_def find_key_def contains_def)

section \<open>Classification of a concrete result\<close>

text \<open>
  C5. As soon as a substitution pass of the loop yields an expression without free symbols,
  on the first pass or after any number of passes that made progress, \<^verbatim>\<open>value_of\<close> returns
  its value: a \<^verbatim>\<open>complex\<close> when the imaginary part is not zero, a \<^verbatim>\<open>float\<close> otherwise. Every
  number the loop returns arises this way. The loop is what \<^verbatim>\<open>value_of\<close> runs on an
  expression that line 92 does not return at once and that misses the shortcut; a sympy
  numeric atom given as the input never reaches the loop.
\<close>

theorem closed_result_classified:
  "(free_symbols E (subs E e d) = {} \<longrightarrow>
      subs_loop E d e =
        Some (if im E (subs E e d) \<noteq> 0 then Number (PyComplex (to_complex E (subs E e d)))
              else Number (PyFloat (to_float E (subs E e d))))) \<and>
   (\<forall>k. (\<forall>i<k. makes_progress E d (subs_iter E d i e)) \<and>
         free_symbols E (subs E (subs_iter E d k e) d) = {} \<longrightarrow>
      subs_loop E d e = Some (numeric_result E (subs E (subs_iter E d k e) d))) \<and>
   (\<forall>k. \<not> is_number (Basic e) \<and> exact_match d (Basic e) = None \<and>
         (\<forall>i<k. makes_progress E d (subs_iter E d i e)) \<and>
         free_symbols E (subs E (subs_iter E d k e) d) = {} \<longrightarrow>
      value_of E d (Basic e) = Some (numeric_result E (subs E (subs_iter E d k e) d))) \<and>
   (\<forall>x. subs_loop E d e = Some (Number x) \<longrightarrow>
      (\<exists>v. free_symbols E v = {} \<and> Number x = numeric_result E v))"
proof -
  have a: "subs_loop E d e = Some (numeric_result E (subs E (subs_iter E d k e) d))"
    if "\<forall>i<k. makes_progress E d (subs_iter E d i e)"
      and "free_symbols E (subs E (subs_iter E d k e) d) = {}" for k
    using that by (simp add: subs_loop_steps [of k E d e] subs_loop_numeric)
  have b: "\<exists>v. free_symbols E v = {} \<and> Number x = numeric_result E v"
    if "subs_loop E d e = Some (Number x)" for x
    using subs_loop_result [OF that] by (auto simp: loop_result_ok_def numeric_result_def)
  have c: "free_symbols E (subs E e d) = {} \<longrightarrow>
      subs_loop E d e =
        Some (if im E (subs E e d) \<noteq> 0 then Number (PyComplex (to_complex E (subs E e d)))
              else Number (PyFloat (to_float E (subs E e d))))"
    using subs_loop_closed [of E e d] by simp
  have d: "value_of E d (Basic e) = Some (numeric_result E (subs E (subs_iter E d k e) d))"
    if "\<not> is_number (Basic e)" "exact_match d (Basic e) = None"
      "\<forall>i<k. makes_progress E d (subs_iter E d i e)"
      "free_symbols E (subs E (subs_iter E d k e) d) = {}" for k
    using that a [of k] by (simp add: value_of_loop)
  show ?thesis
    using a b c d by blast
qed

theorem closed_result_classified_witness:
  "value_of sympy_engine [(KStr ''x'', Basic (Mul (Integer 2) ImaginaryUnit))] (Basic (Symbol ''x''))
     = Some (Number (PyComplex (2 * \<i>))) \<and>
   value_of sympy_engine [(KStr ''x'', Basic (Mul ImaginaryUnit ImaginaryUnit))] (Basic (Symbol ''x''))
     = Some (Number (PyFloat (- 1))) \<and>
   value_of sympy_engine [(KStr ''y'', Number (PyFloat 2)), (KStr ''x'', Str ''y'')] (Basic (Symbol ''x''))
     = Some (Number (PyFloat 2))"
  using closed_result_classified [of sympy_engine "Symbol ''x''" "[(KStr ''x'', Basic (Mul (Integer 2) ImaginaryUnit))]"]
    closed_result_classified [of sympy_engine "Symbol ''x''" "[(KStr ''x'', Basic (Mul ImaginaryUnit ImaginaryUnit))]"]
    closed_result_classified [of sympy_engine "Symbol ''x''" "[(KStr ''y'', Number (PyFloat 2)), (KStr ''x'', Str ''y'')]", THEN conjunct2, THEN conjunct2, THEN conjunct1, THEN spec, of 1]
  by (simp add: sympy_engine_def exact_match_def find_key_def contains_def value_of_loop
        numeric_result_def makes_progress_def subs_iter_def)

section \<open>Input that cannot be resolved\<close>





section \<open>Construction\<close>

text \<open>
  C8. \<^verbatim>\<open>ParamResolver(r)\<close> for a resolver \<^verbatim>\<open>r\<close> returns the reference it was given and
  allocates nothing; when the reference points at an initialised resolver the heap is left
  exactly as it was. \<^verbatim>\<open>ParamResolver(d)\<close> for a dict and \<^verbatim>\<open>ParamResolver()\<close> return the address
  of a new cell, beyond every address in use, holding a resolver over \<^verbatim>\<open>d\<close> or over the empty
  table with an empty hash cache; the cells that existed stay as they were.
\<close>

theorem construction_identity:
  "fst (ParamResolver_call h (ArgResolver p)) = p \<and>
   length (snd (ParamResolver_call h (ArgResolver p))) = length h \<and>
   (p < length h \<and> h ! p = Inst r \<longrightarrow> ParamResolver_call h (ArgResolver p) = (p, h)) \<and>
   ParamResolver_call h (ArgDict d) =
     (length h, h @ [Inst \<lparr>param_dict = d, param_hash = None\<rparr>]) \<and>
   ParamResolver_call h ArgNone =
     (length h, h @ [Inst \<lparr>param_dict = [], param_hash = None\<rparr>])"
  using call_resolver_same [of p h r]
  by (simp add: call_resolver_addr call_resolver_length call_dict call_none ParamResolver_of_def)

theorem construction_identity_witness:
  "ParamResolver_call [Inst \<lparr>param_dict = [(KStr ''x'', Number (PyInt 1))], param_hash = None\<rparr>] (ArgResolver 0)
     = (0, [Inst \<lparr>param_dict = [(KStr ''x'', Number (PyInt 1))], param_hash = None\<rparr>]) \<and>
   ParamResolver_call [Inst \<lparr>param_dict = [(KStr ''x'', Number (PyInt 1))], param_hash = None\<rparr>]
       (ArgDict [(KStr ''x'', Number (PyInt 1))])
     = (1, [Inst \<lparr>param_dict = [(KStr ''x'', Number (PyInt 1))], param_hash = None\<rparr>,
            Inst \<lparr>param_dict = [(KStr ''x'', Number (PyInt 1))], param_hash = None\<rparr>])"
  using construction_identity [of "[Inst \<lparr>param_dict = [(KStr ''x'', Number (PyInt 1))], param_hash = None\<rparr>]" 0
      "\<lparr>param_dict = [(KStr ''x'', Number (PyInt 1))], param_hash = None\<rparr>" "[(KStr ''x'', Number (PyInt 1))]"]
  by simp

section \<open>The type of the result on the two paths\<close>

text \<open>
  C10. The exact-match shortcut returns the bound number itself, with its type: an \<^verbatim>\<open>int\<close>
  stays that \<^verbatim>\<open>int\<close>. A number that comes out of the substitution loop is always a \<^verbatim>\<open>float\<close>
  or a \<^verbatim>\<open>complex\<close>, so no input that misses the shortcut resolves to an \<^verbatim>\<open>int\<close>. The two
  paths therefore differ in type on numerically equal bindings: with \<^verbatim>\<open>x\<close> bound to the
  \<^verbatim>\<open>int\<close> 3 the symbol \<^verbatim>\<open>x\<close> resolves to the \<^verbatim>\<open>int\<close> 3, while \<^verbatim>\<open>1 * x\<close>, or \<^verbatim>\<open>x\<close> bound to the
  expression 3, resolves to the \<^verbatim>\<open>float\<close> 3.0.
\<close>

theorem shortcut_keeps_type_loop_coerces:
  "(map_of d (KStr n) = Some (Number x) \<or>
    (map_of d (KStr n) = None \<and> map_of d (KSym n) = Some (Number x)) \<longrightarrow>
      exact_match d (Basic (Symbol n)) = Some (Number x) \<and>
      value_of E d (Basic (Symbol n)) = Some (Number x)) \<and>
   (\<forall>y. subs_loop E d e = Some (Number y) \<longrightarrow> (\<exists>r. y = PyFloat r) \<or> (\<exists>c. y = PyComplex c)) \<and>
   (\<forall>i. (\<forall>x. v \<noteq> Number x) \<and> exact_match d (as_symbol v) = None \<longrightarrow>
      value_of E d v \<noteq> Some (Number (PyInt i))) \<and>
   value_of sympy_engine [(KStr ''x'', Number (PyInt 3))] (Basic (Symbol ''x'')) = Some (Number (PyInt 3)) \<and>
   value_of sympy_engine [(KStr ''x'', Basic (Integer 3))] (Basic (Symbol ''x'')) = Some (Number (PyFloat 3)) \<and>
   value_of sympy_engine [(KStr ''x'', Number (PyInt 3))] (Basic (Mul (Integer 1) (Symbol ''x'')))
     = Some (Number (PyFloat 3)) \<and>
   py_eq (Number (PyInt 3)) (Number (PyFloat 3)) \<and> Number (PyInt 3) \<noteq> Number (PyFloat 3)"
proof -
  have a: "map_of d (KStr n) = Some (Number x) \<or>
    (map_of d (KStr n) = None \<and> map_of d (KSym n) = Some (Number x)) \<longrightarrow>
      exact_match d (Basic (Symbol n)) = Some (Number x) \<and>
      value_of E d (Basic (Symbol n)) = Some (Number x)"
    by (auto simp: exact_match_name exact_match_object value_of_shortcut)
  have b: "\<forall>y. subs_loop E d e = Some (Number y) \<longrightarrow> (\<exists>r. y = PyFloat r) \<or> (\<exists>c. y = PyComplex c)"
    using subs_loop_returns_number [of E d e] by blast
  have c: "value_of E d v \<noteq> Some (Number (PyInt i))"
    if "\<forall>x. v \<noteq> Number x" "exact_match d (as_symbol v) = None" for i
  proof
    assume r: "value_of E d v = Some (Number (PyInt i))"
    from value_of_not_number [OF that, of E] obtain e' where
      "value_of E d v = subs_loop E d e' \<or> value_of E d v = Some (Basic e')" by blast
    with r have "subs_loop E d e' = Some (Number (PyInt i))" by auto
    from subs_loop_returns_number [OF this] show False by simp
  qed
  have d: "value_of sympy_engine [(KStr ''x'', Number (PyInt 3))] (Basic (Symbol ''x'')) = Some (Number (PyInt 3))"
    "value_of sympy_engine [(KStr ''x'', Basic (Integer 3))] (Basic (Symbol ''x'')) = Some (Number (PyFloat 3))"
    "value_of sympy_engine [(KStr ''x'', Number (PyInt 3))] (Basic (Mul (Integer 1) (Symbol ''x'')))
     = Some (Number (PyFloat 3))"
    by (simp_all add: value_of_def exact_match_def find_key_def contains_def sympy_engine_def
        subs_loop_closed)
  have e: "py_eq (Number (PyInt 3)) (Number (PyFloat 3))" "Number (PyInt 3) \<noteq> Number (PyFloat 3)"
    by (simp_all add: py_eq_def)
  show ?thesis using a b c d e by blast
qed

theorem shortcut_keeps_type_loop_coerces_witness:
  "value_of const_engine [(KStr ''x'', Number (PyInt 3))] (Basic (Symbol ''x'')) = Some (Number (PyInt 3)) \<and>
   value_of const_engine [(KStr ''x'', Number (PyInt 3))] (Basic (Symbol ''y'')) = Some (Number (PyFloat 7)) \<and>
   value_of const_engine [(KStr ''x'', Number (PyInt 3))] (Basic (Symbol ''y'')) \<noteq> Some (Number (PyInt 7))"
  using shortcut_keeps_type_loop_coerces [of "[(KStr ''x'', Number (PyInt 3))]" "''x''" "PyInt 3" const_engine
      "Symbol ''y''" "Basic (Symbol ''y'')"]
  by (simp add: value_of_def exact_match_def find_key_def contains_def const_engine_def subs_loop_closed)

section \<open>Equality and hash of resolvers\<close>



lemma py_eq_refl: "py_eq v v"
  by (simp add: py_eq_def split: option.splits)

lemma dict_eq_same_pairs:
  assumes da: "distinct (map fst a)" and db: "distinct (map fst b)" and eq: "set a = set b"
  shows "dict_eq a b"
proof -
  from da db have "distinct a" "distinct b" by (simp_all add: distinct_map)
  then have "length a = card (set a)" "length b = card (set b)"
    by (simp_all add: distinct_card)
  with eq have len: "length a = length b" by simp
  have "case map_of b k of None \<Rightarrow> False | Some w \<Rightarrow> py_eq v w" if "(k, v) \<in> set a" for k v
  proof -
    from that eq have "(k, v) \<in> set b" by simp
    with db have "map_of b k = Some v" by simp
    then show ?thesis by (simp add: py_eq_refl)
  qed
  then show ?thesis
    unfolding dict_eq_def list_all_iff using len by auto
qed






lemma hash_cache_fresh: "hash_cache_valid H (ParamResolver_of arg)"
  by (simp add: hash_cache_valid_def ParamResolver_of_def)

lemma hash_cache_kept:
  "hash_cache_valid H r \<Longrightarrow> hash_cache_valid H (snd (ParamResolver_hash H r)) \<and>
   param_dict (snd (ParamResolver_hash H r)) = param_dict r \<and>
   fst (ParamResolver_hash H (snd (ParamResolver_hash H r))) = fst (ParamResolver_hash H r)"
  by (cases "param_hash r") (simp_all add: ParamResolver_hash_def hash_cache_valid_def Let_def)





section \<open>Encoding and decoding a resolver\<close>

lemma dict_distinct_aux:
  "distinct (map fst (acc @ xs)) \<Longrightarrow> foldl (\<lambda>d (k, v). AList.update k v d) acc xs = acc @ xs"
proof (induction xs arbitrary: acc)
  case Nil
  then show ?case by simp
next
  case (Cons x xs)
  obtain k v where x: "x = (k, v)" by (cases x)
  from Cons.prems have "k \<notin> fst ` set acc" by (auto simp: x)
  then have "AList.update k v acc = acc @ [(k, v)]"
    by (induction acc) auto
  with Cons show ?case by (simp add: x)
qed

lemma dict_distinct: "distinct (map fst d) \<Longrightarrow> dict d = d"
  using dict_distinct_aux [of "[]" d] by (simp add: dict_def)

lemma dict_eq_refl: "distinct (map fst d) \<Longrightarrow> dict_eq d d"
  by (rule dict_eq_same_pairs) simp_all

text \<open>
  C9. \<^verbatim>\<open>_json_dict_\<close> yields the type tag \<^verbatim>\<open>ParamResolver\<close> and the entries of the dict as a
  sequence of pairs in insertion order; \<^verbatim>\<open>_from_json_dict_\<close> applied to that sequence builds
  a new resolver over the same entries, with an empty hash cache, which compares equal to
  the original in both directions.
\<close>

theorem json_round_trip:
  "distinct (map fst (param_dict r)) \<longrightarrow>
     json_cirq_type (ParamResolver_json_dict r) = ''ParamResolver'' \<and>
     json_param_dict (ParamResolver_json_dict r) = param_dict r \<and>
     ParamResolver_from_json_dict h (json_param_dict (ParamResolver_json_dict r)) =
       (length h, h @ [Inst \<lparr>param_dict = param_dict r, param_hash = None\<rparr>]) \<and>
     ParamResolver_eq \<lparr>param_dict = param_dict r, param_hash = None\<rparr> (Resolver r) = Bool True \<and>
     ParamResolver_eq r (Resolver \<lparr>param_dict = param_dict r, param_hash = None\<rparr>) = Bool True"
  by (simp add: ParamResolver_json_dict_def ParamResolver_from_json_dict_def dict_distinct call_dict
      ParamResolver_of_def ParamResolver_eq_def dict_eq_refl)

theorem json_round_trip_witness:
  "ParamResolver_from_json_dict []
     (json_param_dict (ParamResolver_json_dict
        \<lparr>param_dict = [(KStr ''x'', Number (PyInt 1)), (KSym ''y'', Basic (Add (Symbol ''x'') (Integer 2)))],
         param_hash = Some 5\<rparr>)) =
     (0, [Inst \<lparr>param_dict = [(KStr ''x'', Number (PyInt 1)), (KSym ''y'', Basic (Add (Symbol ''x'') (Integer 2)))],
               param_hash = None\<rparr>]) \<and>
   ParamResolver_eq
     \<lparr>param_dict = [(KStr ''x'', Number (PyInt 1)), (KSym ''y'', Basic (Add (Symbol ''x'') (Integer 2)))],
      param_hash = None\<rparr>
     (Resolver \<lparr>param_dict = [(KStr ''x'', Number (PyInt 1)), (KSym ''y'', Basic (Add (Symbol ''x'') (Integer 2)))],
                param_hash = Some 5\<rparr>) = Bool True"
  using json_round_trip [of "\<lparr>param_dict = [(KStr ''x'', Number (PyInt 1)),
      (KSym ''y'', Basic (Add (Symbol ''x'') (Integer 2)))], param_hash = Some 5\<rparr>" "[]"]
  by (simp add: ParamResolver_json_dict_def)

end
